theory Spec2Isabelle
  imports Main
begin

section \<open>Strings and characters\<close>

text \<open>
  A Python \<open>str\<close> is a sequence of Unicode code points, and \<open>len\<close>, slicing and
  the \<open>re\<close> module all count code points. A string is therefore a list of code points.
  ASCII text is written with \<open>u\<close>; the four characters of app.py beyond ASCII have names.
\<close>

type_synonym pystr = "nat list"

definition u :: "string \<Rightarrow> pystr" where
  "u cs = map of_char cs"

definition em_dash :: nat where "em_dash = 8212"
definition bullet_dot :: nat where "bullet_dot = 8226"
definition rsquo :: nat where "rsquo = 8217"
definition smiley :: nat where "smiley = 128578"

text \<open>
  Whitespace as \<open>str.strip()\<close>, \<open>str.isspace\<close> and the pattern \<open>\s\<close> see it
  (CPython's \<open>Py_UNICODE_ISSPACE\<close>), for every code point.
\<close>

definition is_space :: "nat \<Rightarrow> bool" where
  "is_space c \<longleftrightarrow>
     (9 \<le> c \<and> c \<le> 13) \<or> (28 \<le> c \<and> c \<le> 32) \<or> c = 133 \<or> c = 160 \<or> c = 5760 \<or>
     (8192 \<le> c \<and> c \<le> 8202) \<or> c = 8232 \<or> c = 8233 \<or> c = 8239 \<or> c = 8287 \<or> c = 12288"

text \<open>
  Word characters (\<open>\w\<close>, which decides \<open>\b\<close>) and letter case follow Python on the
  ASCII range: \<open>[A-Za-z0-9_]\<close> are the word characters and \<open>A-Z\<close> lower to
  \<open>a-z\<close>. Code points from 128 on are taken as caseless non-word characters, which is
  what Python says of the em dash, the bullet, the right quote and the emoji used in app.py; the
  Unicode letters and digits beyond ASCII are outside this model.
\<close>

definition is_word :: "nat \<Rightarrow> bool" where
  "is_word c \<longleftrightarrow>
     (48 \<le> c \<and> c \<le> 57) \<or> (65 \<le> c \<and> c \<le> 90) \<or> c = 95 \<or> (97 \<le> c \<and> c \<le> 122)"

definition lower_cp :: "nat \<Rightarrow> nat" where
  "lower_cp c = (if 65 \<le> c \<and> c \<le> 90 then c + 32 else c)"

definition lower :: "pystr \<Rightarrow> pystr" where
  "lower s = map lower_cp s"

text \<open>\<open>s.strip(chars)\<close> and \<open>s.strip()\<close>.\<close>

definition strip_chars :: "pystr \<Rightarrow> pystr \<Rightarrow> pystr" where
  "strip_chars chars s =
     rev (dropWhile (\<lambda>c. c \<in> set chars) (rev (dropWhile (\<lambda>c. c \<in> set chars) s)))"

definition strip :: "pystr \<Rightarrow> pystr" where
  "strip s = rev (dropWhile is_space (rev (dropWhile is_space s)))"

text \<open>\<open>sep.join(parts)\<close>.\<close>

fun join :: "pystr \<Rightarrow> pystr list \<Rightarrow> pystr" where
  "join sep [] = []"
| "join sep [p] = p"
| "join sep (p # q # ps) = p @ sep @ join sep (q # ps)"

section \<open>The regular expressions of the \<open>re\<close> module\<close>

text \<open>
  The patterns app.py compiles, as syntax trees. \<open>Cls\<close> is a bracket class (and
  \<open>\s\<close> alone is \<open>Cls [CSpace]\<close>), \<open>PlusCls\<close> a class under the greedy \<open>+\<close>,
  \<open>WordB\<close> is \<open>\b\<close>, \<open>Bol\<close> and \<open>Eol\<close> are \<open>^\<close> and \<open>$\<close> without
  \<open>re.MULTILINE\<close>, \<open>NegLook\<close> is \<open>(?!...)\<close> and \<open>Opt\<close> the greedy \<open>?\<close>.
\<close>

datatype citem = CChar nat | CSpace

datatype regex =
    Eps
  | Chr nat
  | Cls "citem list"
  | PlusCls "citem list"
  | WordB
  | Bol
  | Eol
  | NegLook regex
  | Seq regex regex
  | Alt regex regex
  | Opt regex

definition chr_eq :: "bool \<Rightarrow> nat \<Rightarrow> nat \<Rightarrow> bool" where
  "chr_eq ic c d = (if ic then lower_cp c = lower_cp d else c = d)"

fun in_item :: "bool \<Rightarrow> nat \<Rightarrow> citem \<Rightarrow> bool" where
  "in_item ic d (CChar c) = chr_eq ic c d"
| "in_item ic d CSpace = is_space d"

definition in_class :: "bool \<Rightarrow> citem list \<Rightarrow> nat \<Rightarrow> bool" where
  "in_class ic cs d = list_ex (in_item ic d) cs"

text \<open>
  The matcher stands at a position of the subject string: it sees the character before
  the position (\<open>None\<close> at the start of the string) and the text from the position on.
  \<open>\b\<close> holds when exactly one of the characters before and after the position is a
  word character; beyond either end of the string there is none.
\<close>

fun word_before :: "nat option \<Rightarrow> bool" where
  "word_before None = False"
| "word_before (Some c) = is_word c"

fun word_after :: "pystr \<Rightarrow> bool" where
  "word_after [] = False"
| "word_after (c # cs) = is_word c"

definition at_boundary :: "nat option \<Rightarrow> pystr \<Rightarrow> bool" where
  "at_boundary p xs = (word_before p \<noteq> word_after xs)"

text \<open>The ends of a greedy class repetition: the longest run first, then shorter ones.\<close>

fun plus_ends :: "bool \<Rightarrow> citem list \<Rightarrow> pystr \<Rightarrow> (nat option \<times> pystr) list" where
  "plus_ends ic cs [] = []"
| "plus_ends ic cs (x # xs) =
     (if in_class ic cs x then plus_ends ic cs xs @ [(Some x, xs)] else [])"

text \<open>
  \<open>rmatch r ic p xs\<close> lists the positions where a match of \<open>r\<close> starting before
  \<open>xs\<close> can end, in the order the backtracking matcher tries them (\<open>ic\<close> is
  \<open>re.IGNORECASE\<close>): the head is the match Python reports.
\<close>

fun rmatch :: "regex \<Rightarrow> bool \<Rightarrow> nat option \<Rightarrow> pystr \<Rightarrow> (nat option \<times> pystr) list" where
  "rmatch Eps ic p xs = [(p, xs)]"
| "rmatch (Chr c) ic p [] = []"
| "rmatch (Chr c) ic p (x # xs) = (if chr_eq ic c x then [(Some x, xs)] else [])"
| "rmatch (Cls cs) ic p [] = []"
| "rmatch (Cls cs) ic p (x # xs) = (if in_class ic cs x then [(Some x, xs)] else [])"
| "rmatch (PlusCls cs) ic p xs = plus_ends ic cs xs"
| "rmatch WordB ic p xs = (if at_boundary p xs then [(p, xs)] else [])"
| "rmatch Bol ic p xs = (if p = None then [(p, xs)] else [])"
| "rmatch Eol ic p xs = (if xs = [] \<or> xs = [10] then [(p, xs)] else [])"
| "rmatch (NegLook r) ic p xs = (if rmatch r ic p xs = [] then [(p, xs)] else [])"
| "rmatch (Seq r1 r2) ic p xs =
     concat (map (\<lambda>(p', xs'). rmatch r2 ic p' xs') (rmatch r1 ic p xs))"
| "rmatch (Alt r1 r2) ic p xs = rmatch r1 ic p xs @ rmatch r2 ic p xs"
| "rmatch (Opt r) ic p xs = rmatch r ic p xs @ [(p, xs)]"

text \<open>
  The match at one start position. After an empty match the next search must advance:
  at its first position an empty match is skipped and the matcher backtracks to the next end.
\<close>

definition match_at :: "regex \<Rightarrow> bool \<Rightarrow> bool \<Rightarrow> nat option \<Rightarrow> pystr \<Rightarrow> (nat option \<times> pystr) option" where
  "match_at r ic adv p xs =
     (case filter (\<lambda>(p', xs'). \<not> adv \<or> xs' \<noteq> xs) (rmatch r ic p xs) of
        [] \<Rightarrow> None
      | m # _ \<Rightarrow> Some m)"

lemma plus_ends_suffix:
  "(p', xs') \<in> set (plus_ends ic cs xs) \<Longrightarrow> \<exists>ys. ys \<noteq> [] \<and> xs = ys @ xs'"
proof (induction xs)
  case Nil
  then show ?case by simp
next
  case (Cons x xs)
  then have "(p', xs') \<in> set (plus_ends ic cs xs) \<or> xs' = xs"
    by (auto split: if_splits)
  then show ?case
  proof
    assume "(p', xs') \<in> set (plus_ends ic cs xs)"
    from Cons.IH [OF this] obtain ys where "xs = ys @ xs'" by blast
    then have "x # xs = (x # ys) @ xs'" by simp
    then show ?thesis by blast
  next
    assume "xs' = xs"
    then have "x # xs = [x] @ xs'" by simp
    then show ?thesis by blast
  qed
qed

lemma rmatch_suffix:
  "(p', xs') \<in> set (rmatch r ic p xs) \<Longrightarrow> \<exists>ys. xs = ys @ xs'"
proof (induction r arbitrary: p xs p' xs')
  case (Chr c)
  then show ?case by (cases xs) (auto split: if_splits)
next
  case (Cls cs)
  then show ?case by (cases xs) (auto split: if_splits)
next
  case (PlusCls cs)
  then show ?case using plus_ends_suffix by fastforce
next
  case (Seq r1 r2)
  then obtain q zs where m: "(q, zs) \<in> set (rmatch r1 ic p xs)" "(p', xs') \<in> set (rmatch r2 ic q zs)"
    by auto
  from Seq.IH(1) [OF m(1)] obtain ys where "xs = ys @ zs" by blast
  moreover from Seq.IH(2) [OF m(2)] obtain ys' where "zs = ys' @ xs'" by blast
  ultimately have "xs = (ys @ ys') @ xs'" by simp
  then show ?case by blast
next
  case (Alt r1 r2)
  then show ?case by auto
next
  case (Opt r)
  then show ?case by auto
qed (auto split: if_splits)

lemma match_at_shorter:
  assumes "match_at r ic adv p xs = Some (p', xs')"
  shows "length xs' \<le> length xs" "xs' \<noteq> xs \<Longrightarrow> length xs' < length xs" "adv \<Longrightarrow> xs' \<noteq> xs"
proof -
  from assms obtain ms where
    "filter (\<lambda>(p', xs'). \<not> adv \<or> xs' \<noteq> xs) (rmatch r ic p xs) = (p', xs') # ms"
    by (auto simp: match_at_def split: list.splits)
  then have "(p', xs') \<in> set (filter (\<lambda>(p', xs'). \<not> adv \<or> xs' \<noteq> xs) (rmatch r ic p xs))"
    by simp
  then have m: "(p', xs') \<in> set (rmatch r ic p xs)" and a: "\<not> adv \<or> xs' \<noteq> xs"
    by simp_all
  from rmatch_suffix [OF m] obtain ys where ys: "xs = ys @ xs'" by blast
  then show "length xs' \<le> length xs" by simp
  from ys show "length xs' < length xs" if "xs' \<noteq> xs"
    using that by (cases ys) simp_all
  from a show "xs' \<noteq> xs" if adv using that by simp
qed

text \<open>
  \<open>re.sub(pattern, repl, s)\<close> for a replacement without group references: the scan
  replaces the leftmost match, goes on behind it, and copies a character where none starts.
\<close>

function re_sub_from :: "regex \<Rightarrow> pystr \<Rightarrow> bool \<Rightarrow> bool \<Rightarrow> nat option \<Rightarrow> pystr \<Rightarrow> pystr" where
  "re_sub_from r rep ic adv p xs =
     (case match_at r ic adv p xs of
        Some (p', xs') \<Rightarrow> rep @ re_sub_from r rep ic (xs' = xs) p' xs'
      | None \<Rightarrow>
         (case xs of
            [] \<Rightarrow> []
          | x # xs'' \<Rightarrow> x # re_sub_from r rep ic False (Some x) xs''))"
  by pat_completeness auto
termination
proof (relation "measure (\<lambda>(r, rep, ic, adv, p, xs). 2 * length xs + (if adv then 0 else 1))",
    goal_cases)
  case 1
  show ?case by simp
next
  case (2 r rep ic adv p xs x xs'')
  then show ?case by simp
next
  case (3 r rep ic adv p xs m p' xs')
  then have m: "match_at r ic adv p xs = Some (p', xs')" by simp
  show ?case
  proof (cases "xs' = xs")
    case True
    with match_at_shorter(3) [OF m] have "\<not> adv" by blast
    with True show ?thesis by simp
  next
    case False
    with match_at_shorter(2) [OF m] have "length xs' < length xs" by blast
    with False show ?thesis by simp
  qed
qed

declare re_sub_from.simps [simp del]

definition re_sub :: "regex \<Rightarrow> pystr \<Rightarrow> pystr \<Rightarrow> bool \<Rightarrow> pystr" where
  "re_sub r rep s ic = re_sub_from r rep ic False None s"

text \<open>
  \<open>re.split(pattern, s)\<close> for a pattern without groups: a match closes the current
  piece, a character outside every match is added to it, the end of the string closes the last.
\<close>

fun push :: "nat \<Rightarrow> pystr list \<Rightarrow> pystr list" where
  "push x [] = [[x]]"
| "push x (piece # pieces) = (x # piece) # pieces"

function re_split_from :: "regex \<Rightarrow> bool \<Rightarrow> bool \<Rightarrow> nat option \<Rightarrow> pystr \<Rightarrow> pystr list" where
  "re_split_from r ic adv p xs =
     (case match_at r ic adv p xs of
        Some (p', xs') \<Rightarrow> [] # re_split_from r ic (xs' = xs) p' xs'
      | None \<Rightarrow>
         (case xs of
            [] \<Rightarrow> [[]]
          | x # xs'' \<Rightarrow> push x (re_split_from r ic False (Some x) xs'')))"
  by pat_completeness auto
termination
proof (relation "measure (\<lambda>(r, ic, adv, p, xs). 2 * length xs + (if adv then 0 else 1))",
    goal_cases)
  case 1
  show ?case by simp
next
  case (2 r ic adv p xs x xs'')
  then show ?case by simp
next
  case (3 r ic adv p xs m p' xs')
  then have m: "match_at r ic adv p xs = Some (p', xs')" by simp
  show ?case
  proof (cases "xs' = xs")
    case True
    with match_at_shorter(3) [OF m] have "\<not> adv" by blast
    with True show ?thesis by simp
  next
    case False
    with match_at_shorter(2) [OF m] have "length xs' < length xs" by blast
    with False show ?thesis by simp
  qed
qed

declare re_split_from.simps [simp del]

definition re_split :: "regex \<Rightarrow> pystr \<Rightarrow> pystr list" where
  "re_split r s = re_split_from r False False None s"

section \<open>The bullet extractor\<close>

definition splitter :: regex where
  \<comment> \<open>\<open>\n|;|\s-\s\<close>\<close>
  "splitter = Alt (Chr 10) (Alt (Chr 59) (Seq (Cls [CSpace]) (Seq (Chr 45) (Cls [CSpace]))))"

fun dedupe :: "pystr set \<Rightarrow> pystr list \<Rightarrow> pystr list" where
  "dedupe seen [] = []"
| "dedupe seen (b # bs) =
     (if lower b \<notin> seen then b # dedupe (insert (lower b) seen) bs else dedupe seen bs)"

definition to_bullets :: "pystr \<Rightarrow> pystr list" where
  "to_bullets text =
     (let raw = re_split splitter text;
          bullets = map (strip_chars [32, 45, 42, 9]) (filter (\<lambda>x. x \<noteq> [] \<and> strip x \<noteq> []) raw)
      in take 8 (dedupe {} bullets))"

section \<open>The lexical substitution engine\<close>

text \<open>
  The keys of \<open>BUZZWORD_MAP_LEVELS\<close> are pattern sources. \<open>lits\<close> is a run of
  literal characters; the two keys that are more than that are \<open>use (?!case)\<close> and
  \<open>notes?\<close>. Each level keeps the insertion order of its dict.
\<close>

definition lits :: "string \<Rightarrow> regex" where
  "lits cs = foldr (\<lambda>c r. Seq (Chr (of_char c)) r) cs Eps"

definition BUZZWORD_MAP_LEVELS :: "(regex \<times> pystr) list list" where
  "BUZZWORD_MAP_LEVELS =
    [ [],
      [ (lits ''help'', u ''support''),
        (lits ''ask'', u ''request''),
        (lits ''finish'', u ''complete''),
        (lits ''start'', u ''kick off''),
        (lits ''check'', u ''review''),
        (lits ''talk'', u ''sync''),
        (lits ''plan'', u ''roadmap''),
        (lits ''fix'', u ''resolve''),
        (lits ''problem'', u ''issue''),
        (lits ''delay'', u ''slippage''),
        (lits ''fast'', u ''expedited''),
        (lits ''slow'', u ''deprioritized''),
        (lits ''meet'', u ''connect'') ],
      [ (lits ''do'', u ''execute''),
        (lits ''make'', u ''build''),
        (lits ''try'', u ''explore''),
        (lits ''change'', u ''iterate''),
        (lits ''improve'', u ''optimize''),
        (lits ''decide'', u ''align on a decision''),
        (lits ''team'', u ''cross-functional team''),
        (lits ''work together'', u ''collaborate''),
        (lits ''because'', u ''so that''),
        (lits ''goal'', u ''north star''),
        (lits ''idea'', u ''proposal'') ],
      [ (lits ''use'', u ''leverage''),
        (Seq (lits ''use '') (NegLook (lits ''case'')), u ''utilize''),
        (lits ''result'', u ''outcome''),
        (lits ''plan'', u ''strategic roadmap''),
        (lits ''meeting'', u ''working session''),
        (lits ''deadline'', u ''target date''),
        (Seq (lits ''note'') (Opt (Chr 115)), u ''takeaways''),
        (lits ''OK'', u ''actionable''),
        (lits ''good'', u ''impactful''),
        (lits ''bad'', u ''non-optimal''),
        (lits ''next'', u ''forward-looking'') ] ]"

datatype py_error = IndexError

text \<open>
  The pattern of one entry is \<open>\b\<close>, the key, \<open>\b\<close>, matched with
  \<open>re.IGNORECASE\<close>. \<open>apply_level\<close> is the inner loop over the entries of a level,
  \<open>apply_levels\<close> the outer loop over \<open>range(1, intensity + 1)\<close>; indexing the table
  beyond its last level raises.
\<close>

fun apply_level :: "(regex \<times> pystr) list \<Rightarrow> pystr \<Rightarrow> pystr" where
  "apply_level [] out = out"
| "apply_level ((pat, rep) # items) out =
     apply_level items (re_sub (Seq WordB (Seq pat WordB)) rep out True)"

fun apply_levels :: "nat list \<Rightarrow> pystr \<Rightarrow> py_error + pystr" where
  "apply_levels [] out = Inr out"
| "apply_levels (lvl # lvls) out =
     (if lvl < length BUZZWORD_MAP_LEVELS
      then apply_levels lvls (apply_level (BUZZWORD_MAP_LEVELS ! lvl) out)
      else Inl IndexError)"

definition apply_buzzwords :: "pystr \<Rightarrow> int \<Rightarrow> py_error + pystr" where
  "apply_buzzwords s intensity =
     (if intensity \<le> 0 then Inr s else apply_levels [1..<nat (intensity + 1)] s)"

section \<open>Request models and phrase banks\<close>

datatype Tone = Formal | Casual | Executive | Empathetic | Assertive | Friendly | Persuasive

datatype Medium = Email | Slack | Teams | Whatsapp | Text | Doc

datatype Length = Short | MediumLength | Long

datatype Locale = US | IN | UK | AU | SG | Generic

datatype Style = Neutral | Positive | Pushback | Clarify | Acknowledge

record MessageVariant =
  subject :: "pystr option"
  message :: pystr

record ReplySuggestionsRequest =
  rq_incoming :: pystr
  rq_style :: Style
  rq_medium :: Medium
  rq_suggestions :: int

text \<open>
  A dict is a map from its key type; \<open>d.get(k, default)\<close> is \<open>get\<close>. \<open>OPENERS\<close> is
  subscripted directly and has an entry for each of the seven tones, so it is a total function.
\<close>

definition get :: "('k \<Rightarrow> 'v option) \<Rightarrow> 'k \<Rightarrow> 'v \<Rightarrow> 'v" where
  "get d k dflt = (case d k of None \<Rightarrow> dflt | Some v \<Rightarrow> v)"

fun SIGN_OFF :: "Medium \<Rightarrow> pystr list option" where
  "SIGN_OFF Email =
     Some [u ''Best regards,'', u ''Kind regards,'', u ''Thanks,'', u ''Sincerely,'',
           u ''Warm regards,'']"
| "SIGN_OFF Slack =
     Some [u ''Thanks!'', u ''Appreciate it!'', u ''Cheers!'', em_dash # u '' thanks'']"
| "SIGN_OFF Teams = Some [u ''Thanks!'', u ''Appreciated.'', u ''Cheers!'']"
| "SIGN_OFF Whatsapp = Some [u ''Thanks!'', u ''Much appreciated.'', u ''Cheers!'']"
| "SIGN_OFF Text = Some [u ''Thanks!'', u ''Appreciate it.'']"
| "SIGN_OFF Doc = Some [[]]"

fun OPENERS :: "Tone \<Rightarrow> pystr list" where
  "OPENERS Formal =
     [u ''Hope you are doing well.'',
      u ''I wanted to reach out regarding the following.'',
      u ''Following up on the item below.'',
      u ''Sharing a quick update.'']"
| "OPENERS Casual =
     [u ''Quick update:'', u ''Heads up'' @ [em_dash], u ''FYI'' @ [em_dash], u ''Ping on this:'']"
| "OPENERS Executive =
     [u ''Executive summary:'', u ''At a glance:'', u ''Top line:'', u ''Key call-outs:'']"
| "OPENERS Empathetic =
     [u ''I understand this is time-sensitive.'',
      u ''Appreciate the effort here.'',
      u ''Thanks for your patience'' @ [em_dash],
      u ''Completely understand the context.'']"
| "OPENERS Assertive =
     [u ''We need a decision to unblock progress.'',
      u ''Action required to stay on track.'',
      u ''To hit our target, we need the following.'',
      u ''Flagging a blocker:'']"
| "OPENERS Friendly =
     [u ''Quick one '' @ [smiley],
      u ''Hope your day'' @ [rsquo] @ u ''s going well!'',
      u ''Just checking in'' @ [em_dash],
      u ''Sharing a quick note'' @ [em_dash]]"
| "OPENERS Persuasive =
     [u ''Here'' @ [rsquo] @ u ''s why this approach works:'',
      u ''The data strongly supports this.'',
      u ''This will help us deliver faster with less risk.'',
      u ''Recommended path forward:'']"

fun EMAIL_SUBJECT_PREFIX :: "Tone \<Rightarrow> pystr list option" where
  "EMAIL_SUBJECT_PREFIX Formal =
     Some [u ''Update:'', u ''Request:'', u ''Follow-up:'', u ''Action needed:'']"
| "EMAIL_SUBJECT_PREFIX Executive =
     Some [u ''Summary:'', u ''Heads-up:'', u ''Decision needed:'', u ''Risks & Next Steps:'']"
| "EMAIL_SUBJECT_PREFIX Assertive =
     Some [u ''Blocker:'', u ''Decision required:'', u ''Deadline risk:'']"
| "EMAIL_SUBJECT_PREFIX Empathetic =
     Some [u ''Appreciate your help:'', u ''Thanks & quick ask:'', u ''Thanks for the support:'']"
| "EMAIL_SUBJECT_PREFIX Casual = Some [u ''Quick update:'', u ''Small ask:'', u ''Heads-up:'']"
| "EMAIL_SUBJECT_PREFIX Friendly =
     Some [u ''Hey'' @ [em_dash] @ u ''quick one:'', u ''Tiny ask:'', u ''Quick sync?'']"
| "EMAIL_SUBJECT_PREFIX Persuasive =
     Some [u ''Proposal:'', u ''Why this works:'', u ''Recommended path:'']"

record flavor =
  politeness :: "pystr list"
  greetings :: "pystr list"

fun LOCALE_FLAVOR :: "Locale \<Rightarrow> flavor option" where
  "LOCALE_FLAVOR IN =
     Some \<lparr>politeness =
              [u ''Kindly let me know your thoughts.'',
               u ''Please advise if this works for you.'',
               u ''Requesting your approval to proceed.''],
           greetings =
              [u ''Hope you are doing well.'',
               u ''Hope you'' @ [rsquo] @ u ''re keeping well.'']\<rparr>"
| "LOCALE_FLAVOR US =
     Some \<lparr>politeness =
              [u ''Would love your feedback.'',
               u ''Let me know if you have any questions.'',
               u ''If you'' @ [39] @ u ''re good with this, I'' @ [rsquo] @ u ''ll proceed.''],
           greetings =
              [u ''Hope you'' @ [39] @ u ''re doing well.'',
               u ''Hope your week is going well.'']\<rparr>"
| "LOCALE_FLAVOR UK =
     Some \<lparr>politeness =
              [u ''Would you be happy to proceed?'',
               u ''Grateful for your thoughts.'',
               u ''Do let me know if that suits.''],
           greetings =
              [u ''Trust you'' @ [39] @ u ''re well.'',
               u ''Hope all'' @ [39] @ u ''s well.'']\<rparr>"
| "LOCALE_FLAVOR Generic = Some \<lparr>politeness = [], greetings = []\<rparr>"
| "LOCALE_FLAVOR AU =
     Some \<lparr>politeness = [u ''Keen to hear your thoughts.''],
           greetings = [u ''Hope you'' @ [rsquo] @ u ''re well.'']\<rparr>"
| "LOCALE_FLAVOR SG =
     Some \<lparr>politeness = [u ''Appreciate your advice.''],
           greetings = [u ''Hope you'' @ [rsquo] @ u ''re well.'']\<rparr>"

section \<open>The phrase selector\<close>

text \<open>
  The process-wide generator is passed explicitly: it is the sequence of the raw draws still
  to come, and \<open>random.choice\<close> reduces the next draw to an index of the list, so every
  element can be chosen. \<open>pick\<close> draws nothing from an empty bank.
\<close>

type_synonym rng = "nat \<Rightarrow> nat"

definition pick :: "pystr list \<Rightarrow> rng \<Rightarrow> pystr \<times> rng" where
  "pick items g =
     (if items \<noteq> [] then (items ! (g 0 mod length items), \<lambda>n. g (Suc n)) else ([], g))"

definition sign_off :: "Medium \<Rightarrow> rng \<Rightarrow> pystr \<times> rng" where
  "sign_off medium g = pick (get SIGN_OFF medium [[]]) g"

section \<open>The message composer\<close>

text \<open>
  \<open>subject_core\<close> is the core of \<open>make_subject\<close>: the first bullet or the word
  Update, the two \<open>re.sub\<close> calls (\<open>^[-\<bullet>\s]+\<close> and \<open>\.$\<close>), and the slice
  \<open>core[:72]\<close>.
\<close>

definition lead_marks :: regex where
  "lead_marks = Seq Bol (PlusCls [CChar 45, CChar bullet_dot, CSpace])"

definition final_period :: regex where
  "final_period = Seq (Chr 46) Eol"

definition subject_core :: "pystr list \<Rightarrow> pystr" where
  "subject_core bullets =
     (let core = (case bullets of [] \<Rightarrow> u ''Update'' | b # _ \<Rightarrow> b);
          core = re_sub lead_marks [] core False;
          core = re_sub final_period [] core False
      in take 72 core)"

definition make_subject :: "Tone \<Rightarrow> pystr list \<Rightarrow> rng \<Rightarrow> pystr \<times> rng" where
  "make_subject tone bullets g =
     (let (prefix, g') = pick (get EMAIL_SUBJECT_PREFIX tone [u ''Update:'']) g
      in (strip (prefix @ [32] @ subject_core bullets), g'))"

text \<open>
  \<open>body_parts\<close> is the list \<open>compose_message\<close> assembles from the greeting to the
  politeness line; \<open>compose_message\<close> then draws the sign-off, joins the parts and builds
  the subject. The draws are made in the order of the source: opener, greeting, politeness,
  sign-off, subject prefix.
\<close>

definition body_parts ::
  "pystr \<Rightarrow> Tone \<Rightarrow> Medium \<Rightarrow> Length \<Rightarrow> Locale \<Rightarrow> bool \<Rightarrow> rng \<Rightarrow> pystr list \<times> rng" where
  "body_parts text tone medium len locale include_bullets g =
     (let bullets = to_bullets text;
          (opener, g1) = pick (OPENERS tone) g;
          locale_bits = get LOCALE_FLAVOR locale \<lparr>politeness = [], greetings = []\<rparr>;
          (greeting, g2) = pick (greetings locale_bits) g1;
          (polite, g3) = pick (politeness locale_bits) g2;
          parts = [];
          parts = (if (medium = Email \<or> medium = Doc) \<and> greeting \<noteq> []
                   then parts @ [greeting] else parts);
          parts = (if opener \<noteq> [] then parts @ [opener] else parts);
          parts = (if (include_bullets \<or> (tone = Executive \<and> (medium = Email \<or> medium = Doc)))
                      \<and> bullets \<noteq> []
                   then parts @ [join [10] (map (\<lambda>b. bullet_dot # 32 # b) (take 5 bullets))]
                   else parts);
          summary = (if bullets \<noteq> [] then join [32] (take 2 bullets) else text);
          core =
            (case len of
               Short \<Rightarrow> summary @ u ''.''
             | MediumLength \<Rightarrow>
                 summary @ u ''. Requesting your input on the above so we can proceed without delay.''
             | Long \<Rightarrow>
                 summary @ u ''. Here'' @ [39] @ u ''s the context: ''
                 @ (if length bullets > 2 then join (u '', '') (take 3 (drop 2 bullets))
                    else u ''see above'')
                 @ u ''. ''
                 @ u ''Next steps: we'' @ [39] @ u ''ll align on owners & timelines after your feedback.'');
          parts = parts @ [core];
          parts = (if polite \<noteq> [] then parts @ [polite] else parts)
      in (parts, g3))"

definition compose_message ::
  "pystr \<Rightarrow> Tone \<Rightarrow> Medium \<Rightarrow> Length \<Rightarrow> Locale \<Rightarrow> bool \<Rightarrow> bool \<Rightarrow> rng \<Rightarrow> MessageVariant \<times> rng" where
  "compose_message text tone medium len locale include_bullets add_subject g =
     (let (parts, g3) = body_parts text tone medium len locale include_bullets g;
          (s_off, g4) = sign_off medium g3;
          parts = (if s_off \<noteq> [] then parts @ [s_off] else parts);
          msg = join [10, 10] (filter (\<lambda>p. p \<noteq> []) parts);
          (subj, g5) =
            (if medium = Email \<and> add_subject
             then (let (s, g') = make_subject tone (to_bullets text) g4 in (Some s, g'))
             else (None, g4))
      in (\<lparr>subject = subj, message = msg\<rparr>, g5))"

section \<open>Reply suggestions\<close>

text \<open>
  \<open>s.replace(old, new)\<close> for a non-empty \<open>old\<close>: \<open>replace_from\<close> skips the rest
  of an occurrence it has just replaced. \<open>xs[:n]\<close> counts a negative \<open>n\<close> from the end.
\<close>

fun starts_with :: "pystr \<Rightarrow> pystr \<Rightarrow> bool" where
  "starts_with [] s = True"
| "starts_with (c # cs) [] = False"
| "starts_with (c # cs) (x # xs) = (c = x \<and> starts_with cs xs)"

fun replace_from :: "pystr \<Rightarrow> pystr \<Rightarrow> nat \<Rightarrow> pystr \<Rightarrow> pystr" where
  "replace_from old new k [] = []"
| "replace_from old new (Suc k) (x # xs) = replace_from old new k xs"
| "replace_from old new 0 (x # xs) =
     (if starts_with old (x # xs) then new @ replace_from old new (length old - 1) xs
      else x # replace_from old new 0 xs)"

definition replace :: "pystr \<Rightarrow> pystr \<Rightarrow> pystr \<Rightarrow> pystr" where
  "replace s old new =
     (if old = [] then new @ concat (map (\<lambda>x. x # new) s) else replace_from old new 0 s)"

definition slice_to :: "'a list \<Rightarrow> int \<Rightarrow> 'a list" where
  "slice_to xs n = (if 0 \<le> n then take (nat n) xs else take (nat (int (length xs) + n)) xs)"

fun style_map :: "Style \<Rightarrow> pystr list option" where
  "style_map Neutral =
     Some [u ''Thanks for the update'' @ [em_dash] @ u ''got it.'',
           u ''Acknowledged. I'' @ [rsquo] @ u ''ll keep you posted.'',
           u ''Noted, thanks.'']"
| "style_map Positive =
     Some [u ''This looks great'' @ [em_dash] @ u ''thanks for pushing it forward!'',
           u ''Nice progress'' @ [em_dash] @ u ''appreciate the momentum.'',
           u ''Awesome'' @ [em_dash] @ u ''thanks for the clarity!'']"
| "style_map Pushback =
     Some [u ''Thanks'' @ [em_dash]
             @ u ''timeline is tight. Can we prioritize the critical path and revisit the rest next sprint?'',
           u ''Appreciate it. Given constraints, proposing we de-scope X to hit the target date''
             @ [em_dash] @ u ''thoughts?'',
           u ''Understood. For feasibility, can we align on the must-haves first?'']"
| "style_map Clarify =
     Some [u ''Thanks'' @ [em_dash] @ u ''could you clarify the owner for the next step?'',
           u ''Helpful. What'' @ [rsquo] @ u ''s the expected date for the handoff?'',
           u ''Got it'' @ [em_dash] @ u ''what'' @ [rsquo] @ u ''s the definition of done here?'']"
| "style_map Acknowledge =
     Some [u ''Received, thanks.'',
           u ''Acknowledged'' @ [em_dash] @ u ''will do.'',
           u ''Noted'' @ [em_dash] @ u ''appreciate it.'']"

definition reply_suggestions :: "ReplySuggestionsRequest \<Rightarrow> pystr list" where
  "reply_suggestions req =
     (let base = get style_map (rq_style req) (get style_map Neutral []);
          n = min (rq_suggestions req) (int (length base));
          replies = slice_to base n;
          replies = (if rq_medium req = Slack \<or> rq_medium req = Teams
                     then map (\<lambda>r. replace r [em_dash] (u '' - '')) replies
                     else replies)
      in replies)"

section \<open>Auxiliary functions of the proofs\<close>

text \<open>
  \<open>lit_prefix ic cs p xs\<close> reads the literal text \<open>cs\<close> off the front of \<open>xs\<close>:
  what \<open>rmatch\<close> does on a run of literal characters, in one pass.
\<close>

fun lit_prefix :: "bool \<Rightarrow> pystr \<Rightarrow> nat option \<Rightarrow> pystr \<Rightarrow> (nat option \<times> pystr) option" where
  "lit_prefix ic [] p xs = Some (p, xs)"
| "lit_prefix ic (c # cs) p [] = None"
| "lit_prefix ic (c # cs) p (x # xs) = (if chr_eq ic c x then lit_prefix ic cs (Some x) xs else None)"


definition ends_with :: "pystr \<Rightarrow> pystr \<Rightarrow> bool" where
  "ends_with suffix s = starts_with (rev suffix) (rev s)"





definition zero_rng :: rng where
  "zero_rng n = 0"

section \<open>Matching literal words\<close>

lemma u_simps: "u [] = []" "u (c # cs) = of_char c # u cs"
  by (simp_all add: u_def)

lemma rmatch_lits:
  "rmatch (lits cs) ic p xs = (case lit_prefix ic (u cs) p xs of None \<Rightarrow> [] | Some m \<Rightarrow> [m])"
proof (induction cs arbitrary: p xs)
  case Nil
  show ?case by (simp add: lits_def u_def)
next
  case (Cons c cs)
  have l: "lits (c # cs) = Seq (Chr (of_char c)) (lits cs)" by (simp add: lits_def)
  show ?case
  proof (cases xs)
    case Nil
    then show ?thesis by (simp add: l u_def)
  next
    case (Cons x xs')
    with Cons.IH show ?thesis by (simp add: l u_def)
  qed
qed

lemma match_at_word:
  "match_at (Seq WordB (Seq (lits cs) WordB)) ic False p xs =
     (if at_boundary p xs
      then (case lit_prefix ic (u cs) p xs of
              None \<Rightarrow> None
            | Some (p', xs') \<Rightarrow> if at_boundary p' xs' then Some (p', xs') else None)
      else None)"
  by (simp add: match_at_def rmatch_lits split: option.splits)

lemma match_at_word_unless:
  "match_at (Seq WordB (Seq (Seq (lits cs) (NegLook (lits ds))) WordB)) ic False p xs =
     (if at_boundary p xs
      then (case lit_prefix ic (u cs) p xs of
              None \<Rightarrow> None
            | Some (p', xs') \<Rightarrow>
                if lit_prefix ic (u ds) p' xs' = None \<and> at_boundary p' xs'
                then Some (p', xs') else None)
      else None)"
  by (simp add: match_at_def rmatch_lits split: option.splits)

lemma match_at_word_opt:
  "match_at (Seq WordB (Seq (Seq (lits cs) (Opt (Chr c))) WordB)) ic False p xs =
     (if at_boundary p xs
      then (case lit_prefix ic (u cs) p xs of
              None \<Rightarrow> None
            | Some (p', xs') \<Rightarrow>
                (case xs' of
                   [] \<Rightarrow> if at_boundary p' [] then Some (p', []) else None
                 | x # xs'' \<Rightarrow>
                     if chr_eq ic c x \<and> at_boundary (Some x) xs'' then Some (Some x, xs'')
                     else if at_boundary p' xs' then Some (p', xs') else None))
      else None)"
  by (simp add: match_at_def rmatch_lits split: option.splits list.splits)

lemmas word_eval = re_sub_def match_at_word match_at_word_unless match_at_word_opt u_simps
  is_word_def chr_eq_def lower_cp_def at_boundary_def re_sub_from.simps

lemmas split_eval = re_split_def splitter_def match_at_def u_simps strip_def strip_chars_def
  is_space_def in_class_def chr_eq_def lower_def lower_cp_def re_split_from.simps

lemma levels_length: "length BUZZWORD_MAP_LEVELS = 4"
  by (simp add: BUZZWORD_MAP_LEVELS_def)

lemma range_1: "[1..<nat (1 + 1)] = [1]"
  by (simp add: upt_rec)

lemma range_2: "[1..<nat (2 + 1)] = [1, 2]"
  by (simp add: upt_rec)

lemma range_3: "[1..<nat (3 + 1)] = [1, 2, 3]"
  by (simp add: upt_rec)

lemma apply_level_fold:
  "apply_level items out =
     fold (\<lambda>(pat, rep) out. re_sub (Seq WordB (Seq pat WordB)) rep out True) items out"
  by (induction items arbitrary: out) auto

section \<open>The substitution engine: claims C1 and C2\<close>

text \<open>
  Claim C1 says that at intensity 3 the word use is left alone when the word case follows it.
  The level-3 table has the unguarded entry for use in front of the guarded one, and the
  loop applies it first: on the text "use case" the engine returns "leverage case".
\<close>

theorem apply_buzzwords_use_case:
  "apply_buzzwords (u ''use case'') 3 = Inr (u ''leverage case'')"
proof -
  have "apply_buzzwords (u ''use case'') 3 = apply_levels [1, 2, 3] (u ''use case'')"
    unfolding apply_buzzwords_def range_3 by simp
  also have "\<dots> = Inr (u ''leverage case'')"
    by (simp add: BUZZWORD_MAP_LEVELS_def word_eval)
  finally show ?thesis .
qed

text \<open>
  Claim C2: the engine is cumulative. For every string both intensities return a result, and
  the result at intensity 2 is the result at intensity 1 with the entries of level 2 applied
  to it in their order, each as a whole-word, case-insensitive substitution of all matches.
\<close>

theorem apply_buzzwords_cumulative:
  "\<exists>t. apply_buzzwords s 1 = Inr t \<and>
       apply_buzzwords s 2 =
         Inr (fold (\<lambda>(pat, rep) out. re_sub (Seq WordB (Seq pat WordB)) rep out True)
                (BUZZWORD_MAP_LEVELS ! 2) t)"
proof -
  have 1: "apply_buzzwords s 1 = Inr (apply_level (BUZZWORD_MAP_LEVELS ! 1) s)"
    unfolding apply_buzzwords_def range_1 by (simp add: levels_length)
  have 2: "apply_buzzwords s 2 =
      Inr (apply_level (BUZZWORD_MAP_LEVELS ! 2) (apply_level (BUZZWORD_MAP_LEVELS ! 1) s))"
    unfolding apply_buzzwords_def range_2 by (simp add: levels_length)
  from 1 2 show ?thesis by (simp add: apply_level_fold)
qed

section \<open>The bullet extractor: claims C3 and C8\<close>

text \<open>
  Claim C3 says that extracting the bullets of the newline-joined bullets gives the same
  bullets. The filter of \<open>to_bullets\<close> tests a fragment with \<open>strip()\<close> and keeps it
  stripped with \<open>strip(" -*\t")\<close>, so a fragment made of dashes is kept as an empty
  bullet; the second run drops it. Here the input is three lines: a, a dash, b.
\<close>

theorem to_bullets_not_idempotent:
  "to_bullets (u ''a'' @ [10] @ u ''-'' @ [10] @ u ''b'') = [u ''a'', [], u ''b''] \<and>
   to_bullets (join [10] (to_bullets (u ''a'' @ [10] @ u ''-'' @ [10] @ u ''b''))) =
     [u ''a'', u ''b'']"
proof -
  have 1: "to_bullets (u ''a'' @ [10] @ u ''-'' @ [10] @ u ''b'') = [u ''a'', [], u ''b'']"
    by (simp add: to_bullets_def split_eval)
  have 2: "to_bullets (join [10] [u ''a'', [], u ''b'']) = [u ''a'', u ''b'']"
    by (simp add: to_bullets_def split_eval)
  from 1 2 show ?thesis by simp
qed

text \<open>
  Claim C8: on the text "a; b - c", a newline, "A", the extractor returns exactly the three
  bullets a, b and c.
\<close>

theorem to_bullets_example:
  "to_bullets (u ''a; b - c'' @ [10] @ u ''A'') = [u ''a'', u ''b'', u ''c'']"
  by (simp add: to_bullets_def split_eval)

section \<open>The message composer: claims C5, C6 and C7\<close>

lemma join_contains:
  "x \<in> set ps \<Longrightarrow> \<exists>pre post. join sep ps = pre @ x @ post"
proof (induction sep ps rule: join.induct)
  case (1 sep)
  then show ?case by simp
next
  case (2 sep p)
  then have "join sep [p] = [] @ x @ []" by simp
  then show ?case by blast
next
  case (3 sep p q ps)
  show ?case
  proof (cases "x = p")
    case True
    then have "join sep (p # q # ps) = [] @ x @ (sep @ join sep (q # ps))" by simp
    then show ?thesis by blast
  next
    case False
    with 3 obtain pre post where "join sep (q # ps) = pre @ x @ post" by auto
    then have "join sep (p # q # ps) = (p @ sep @ pre) @ x @ post" by simp
    then show ?thesis by blast
  qed
qed

lemma join_nonempty: "p \<noteq> [] \<Longrightarrow> join sep (p # ps) \<noteq> []"
  by (cases ps) simp_all

lemma pick_empty: "pick [] g = ([], g)"
  by (simp add: pick_def)

lemma pick_member: "items \<noteq> [] \<Longrightarrow> fst (pick items g) \<in> set items"
  by (simp add: pick_def)

lemma sign_off_doc: "sign_off Doc g = ([], \<lambda>n. g (Suc n))"
  by (simp add: sign_off_def get_def pick_def)

lemma strip_nonempty:
  assumes "\<not> is_space x"
  shows "strip (x # xs) \<noteq> []"
proof -
  have "dropWhile is_space (x # xs) = x # xs" using assms by simp
  moreover have "dropWhile is_space (rev (x # xs)) \<noteq> []"
    using assms by (auto simp: dropWhile_eq_Nil_conv)
  ultimately show ?thesis by (simp add: strip_def)
qed

lemma subject_prefix_bank:
  "get EMAIL_SUBJECT_PREFIX tone [u ''Update:''] \<noteq> [] \<and>
   (\<forall>p \<in> set (get EMAIL_SUBJECT_PREFIX tone [u ''Update:'']). \<exists>x xs. p = x # xs \<and> \<not> is_space x)"
  by (cases tone) (simp_all add: get_def u_simps is_space_def em_dash_def)

lemma make_subject_nonempty: "fst (make_subject tone bullets g) \<noteq> []"
proof -
  let ?bank = "get EMAIL_SUBJECT_PREFIX tone [u ''Update:'']"
  obtain prefix g' where p: "pick ?bank g = (prefix, g')" by (cases "pick ?bank g")
  from subject_prefix_bank have "?bank \<noteq> []" by blast
  from pick_member [OF this, of g] p have "prefix \<in> set ?bank" by simp
  with subject_prefix_bank obtain x xs where x: "prefix = x # xs" "\<not> is_space x" by blast
  have "fst (make_subject tone bullets g) = strip (x # (xs @ [32] @ subject_core bullets))"
    by (simp add: make_subject_def p x(1))
  with strip_nonempty [OF x(2)] show ?thesis by simp
qed

lemma body_parts_executive_block:
  assumes "to_bullets text \<noteq> []" "medium = Email \<or> medium = Doc"
  shows "join [10] (map (\<lambda>b. bullet_dot # 32 # b) (take 5 (to_bullets text)))
           \<in> set (fst (body_parts text Executive medium len locale False g))"
proof -
  obtain opener g1 where 1: "pick (OPENERS Executive) g = (opener, g1)"
    by (cases "pick (OPENERS Executive) g")
  obtain greeting g2 where
    2: "pick (greetings (get LOCALE_FLAVOR locale \<lparr>politeness = [], greetings = []\<rparr>)) g1 = (greeting, g2)"
    by (cases "pick (greetings (get LOCALE_FLAVOR locale \<lparr>politeness = [], greetings = []\<rparr>)) g1")
  obtain polite g3 where
    3: "pick (politeness (get LOCALE_FLAVOR locale \<lparr>politeness = [], greetings = []\<rparr>)) g2 = (polite, g3)"
    by (cases "pick (politeness (get LOCALE_FLAVOR locale \<lparr>politeness = [], greetings = []\<rparr>)) g2")
  from assms show ?thesis
    unfolding body_parts_def Let_def 1 2 3 prod.case by simp
qed

lemma bullet_block_nonempty:
  assumes "bs \<noteq> []"
  shows "join [10] (map (\<lambda>b. bullet_dot # 32 # b) (take 5 bs)) \<noteq> []"
proof -
  from assms obtain b bs' where "bs = b # bs'" by (cases bs) auto
  then have "map (\<lambda>b. bullet_dot # 32 # b) (take 5 bs) =
      (bullet_dot # 32 # b) # map (\<lambda>b. bullet_dot # 32 # b) (take 4 bs')"
    by simp
  then show ?thesis using join_nonempty [of "bullet_dot # 32 # b"] by simp
qed

lemma compose_message_parts:
  "x \<in> set (fst (body_parts text tone medium len locale include_bullets g)) \<Longrightarrow> x \<noteq> [] \<Longrightarrow>
   \<exists>pre post. message (fst (compose_message text tone medium len locale include_bullets add_subject g))
      = pre @ x @ post"
proof -
  assume x: "x \<in> set (fst (body_parts text tone medium len locale include_bullets g))" "x \<noteq> []"
  obtain parts g3 where bp: "body_parts text tone medium len locale include_bullets g = (parts, g3)"
    by (cases "body_parts text tone medium len locale include_bullets g")
  obtain s_off g4 where so: "sign_off medium g3 = (s_off, g4)"
    by (cases "sign_off medium g3")
  let ?parts = "if s_off \<noteq> [] then parts @ [s_off] else parts"
  have msg: "message (fst (compose_message text tone medium len locale include_bullets add_subject g))
      = join [10, 10] (filter (\<lambda>p. p \<noteq> []) ?parts)"
    by (simp add: compose_message_def bp so Let_def split: prod.splits)
  from x bp have "x \<in> set (filter (\<lambda>p. p \<noteq> []) ?parts)" by simp
  from join_contains [OF this] msg show ?thesis by simp
qed

lemma to_bullets_two: "to_bullets (u ''ship it; test it'') = [u ''ship it'', u ''test it'']"
  by (simp add: to_bullets_def split_eval)

text \<open>
  Claim C5: the variant returned by \<open>compose_message\<close> has a subject exactly when the
  medium is email and \<open>add_subject\<close> is set, and a subject that is present is not the
  empty string. This holds for every text, every parameter value and every sequence of draws.
\<close>

theorem compose_subject_presence:
  "(subject (fst (compose_message text tone medium len locale include_bullets add_subject g)) \<noteq> None)
     = (medium = Email \<and> add_subject) \<and>
   subject (fst (compose_message text tone medium len locale include_bullets add_subject g)) \<noteq> Some []"
proof -
  obtain parts g3 where bp: "body_parts text tone medium len locale include_bullets g = (parts, g3)"
    by (cases "body_parts text tone medium len locale include_bullets g")
  obtain s_off g4 where so: "sign_off medium g3 = (s_off, g4)"
    by (cases "sign_off medium g3")
  obtain s g5 where ms: "make_subject tone (to_bullets text) g4 = (s, g5)"
    by (cases "make_subject tone (to_bullets text) g4")
  have ne: "s \<noteq> []" using make_subject_nonempty [of tone "to_bullets text" g4] ms by simp
  have "subject (fst (compose_message text tone medium len locale include_bullets add_subject g))
      = (if medium = Email \<and> add_subject then Some s else None)"
    by (simp add: compose_message_def bp so ms Let_def)
  with ne show ?thesis by simp
qed

text \<open>
  Claim C6: for the medium doc the sign-off drawn is the empty string whatever the generator,
  and the message is the blank-line join of the non-empty parts assembled before the
  sign-off: no sign-off part is in it.
\<close>

theorem compose_doc_no_sign_off:
  "fst (sign_off Doc g') = [] \<and>
   message (fst (compose_message text tone Doc len locale include_bullets add_subject g)) =
     join [10, 10]
       (filter (\<lambda>p. p \<noteq> []) (fst (body_parts text tone Doc len locale include_bullets g)))"
  by (simp add: compose_message_def sign_off_doc Let_def split: prod.splits)

text \<open>
  Claim C7: with the executive tone and the medium email or doc, \<open>include_bullets\<close>
  false and at least one bullet extracted, the bullet block is one of the body parts and
  occurs in the message; the block is the first five bullets at most, each behind the bullet
  marker and a space, joined by newlines.
\<close>

theorem compose_executive_bullets:
  assumes "to_bullets text \<noteq> []" "medium = Email \<or> medium = Doc"
  shows "join [10] (map (\<lambda>b. bullet_dot # 32 # b) (take 5 (to_bullets text)))
           \<in> set (fst (body_parts text Executive medium len locale False g)) \<and>
         (\<exists>pre post.
            message (fst (compose_message text Executive medium len locale False add_subject g)) =
              pre @ join [10] (map (\<lambda>b. bullet_dot # 32 # b) (take 5 (to_bullets text))) @ post)"
  using body_parts_executive_block [OF assms] bullet_block_nonempty [OF assms(1)]
    compose_message_parts by blast

theorem compose_executive_bullets_witness:
  "to_bullets (u ''ship it; test it'') \<noteq> [] \<and>
   [bullet_dot, 32] @ u ''ship it'' @ [10] @ [bullet_dot, 32] @ u ''test it''
      \<in> set (fst (body_parts (u ''ship it; test it'') Executive Email Short Generic False zero_rng)) \<and>
   (\<exists>pre post.
      message (fst (compose_message (u ''ship it; test it'') Executive Email Short Generic False
                     False zero_rng)) =
        pre @ ([bullet_dot, 32] @ u ''ship it'' @ [10] @ [bullet_dot, 32] @ u ''test it'') @ post)"
proof -
  have ne: "to_bullets (u ''ship it; test it'') \<noteq> []"
    by (simp add: to_bullets_two)
  have m: "Email = Email \<or> Email = Doc" by simp
  have blk: "join [10] (map (\<lambda>b. bullet_dot # 32 # b) (take 5 (to_bullets (u ''ship it; test it''))))
      = [bullet_dot, 32] @ u ''ship it'' @ [10] @ [bullet_dot, 32] @ u ''test it''"
    by (simp add: to_bullets_two)
  from compose_executive_bullets [OF ne m, of Short Generic zero_rng False] ne
  show ?thesis unfolding blk by simp
qed

section \<open>Reply suggestions: claims C9 and C10\<close>

text \<open>
  Claim C9: for the style pushback and two suggestions the replies are the first two entries
  of the pushback bank in their order, with the em dash kept for the medium email and every
  em dash replaced by space, hyphen, space for slack and for teams.
\<close>

theorem reply_suggestions_pushback:
  "reply_suggestions \<lparr>rq_incoming = incoming, rq_style = Pushback, rq_medium = Email,
                       rq_suggestions = 2\<rparr> =
     [u ''Thanks'' @ [em_dash]
        @ u ''timeline is tight. Can we prioritize the critical path and revisit the rest next sprint?'',
      u ''Appreciate it. Given constraints, proposing we de-scope X to hit the target date''
        @ [em_dash] @ u ''thoughts?''] \<and>
   reply_suggestions \<lparr>rq_incoming = incoming, rq_style = Pushback, rq_medium = Slack,
                       rq_suggestions = 2\<rparr> =
     [u ''Thanks - timeline is tight. Can we prioritize the critical path and revisit the rest next sprint?'',
      u ''Appreciate it. Given constraints, proposing we de-scope X to hit the target date - thoughts?''] \<and>
   reply_suggestions \<lparr>rq_incoming = incoming, rq_style = Pushback, rq_medium = Teams,
                       rq_suggestions = 2\<rparr> =
     [u ''Thanks - timeline is tight. Can we prioritize the critical path and revisit the rest next sprint?'',
      u ''Appreciate it. Given constraints, proposing we de-scope X to hit the target date - thoughts?'']"
  by (simp add: reply_suggestions_def get_def slice_to_def replace_def u_simps em_dash_def)

lemma style_map_length: "\<exists>bank. style_map st = Some bank \<and> length bank = 3"
  by (cases st) simp_all

text \<open>
  Claim C10 says that the replies are always a prefix of the bank of the style. For the medium
  slack the entries are rewritten, so the one reply returned for the style neutral is not the
  first entry of its bank.
\<close>

theorem reply_suggestions_slack_not_prefix:
  "reply_suggestions \<lparr>rq_incoming = [], rq_style = Neutral, rq_medium = Slack,
                       rq_suggestions = 1\<rparr> = [u ''Thanks for the update - got it.''] \<and>
   take 1 (get style_map Neutral []) = [u ''Thanks for the update'' @ [em_dash] @ u ''got it.''] \<and>
   reply_suggestions \<lparr>rq_incoming = [], rq_style = Neutral, rq_medium = Slack,
                       rq_suggestions = 1\<rparr> \<noteq> take 1 (get style_map Neutral [])"
  by (simp add: reply_suggestions_def get_def slice_to_def replace_def u_simps em_dash_def)

text \<open>
  Claim C10, amended: every bank has exactly three entries, and for a requested count from 1
  to 6 the replies are the first min(count, 3) entries of the bank of the style, in order,
  each with its em dashes replaced by space, hyphen, space when the medium is slack or teams
  and unchanged otherwise; so there are min(count, 3) replies, never more than three.
\<close>

theorem reply_suggestions_count:
  assumes "1 \<le> rq_suggestions req" "rq_suggestions req \<le> 6"
  shows "\<exists>bank. style_map (rq_style req) = Some bank \<and> length bank = 3 \<and>
           length (reply_suggestions req) = nat (min (rq_suggestions req) 3) \<and>
           length (reply_suggestions req) \<le> 3 \<and>
           reply_suggestions req =
             map (\<lambda>r. if rq_medium req = Slack \<or> rq_medium req = Teams
                       then replace r [em_dash] (u '' - '') else r)
               (take (nat (min (rq_suggestions req) 3)) bank)"
proof -
  from style_map_length obtain bank where b: "style_map (rq_style req) = Some bank" "length bank = 3"
    by blast
  have n: "min (rq_suggestions req) (int (length bank)) = min (rq_suggestions req) 3"
    by (simp add: b(2))
  have "reply_suggestions req =
      map (\<lambda>r. if rq_medium req = Slack \<or> rq_medium req = Teams
                then replace r [em_dash] (u '' - '') else r)
        (take (nat (min (rq_suggestions req) 3)) bank)"
    using assms(1) by (simp add: reply_suggestions_def get_def b(1) n slice_to_def Let_def)
  moreover have "length (take (nat (min (rq_suggestions req) 3)) bank) = nat (min (rq_suggestions req) 3)"
    using assms by (simp add: b(2))
  ultimately show ?thesis using b by simp
qed

theorem reply_suggestions_count_witness:
  "(1::int) \<le> 5 \<and> (5::int) \<le> 6 \<and>
   length (reply_suggestions \<lparr>rq_incoming = [], rq_style = Neutral, rq_medium = Email,
                               rq_suggestions = 5\<rparr>) = 3 \<and>
   reply_suggestions \<lparr>rq_incoming = [], rq_style = Neutral, rq_medium = Email,
                       rq_suggestions = 5\<rparr> =
     [u ''Thanks for the update'' @ [em_dash] @ u ''got it.'',
      u ''Acknowledged. I'' @ [rsquo] @ u ''ll keep you posted.'',
      u ''Noted, thanks.'']"
  using reply_suggestions_count
    [of "\<lparr>rq_incoming = [], rq_style = Neutral, rq_medium = Email, rq_suggestions = 5\<rparr>"]
  by simp

section \<open>The subject line: claim C4\<close>










lemma starts_with_iff: "starts_with pre s \<longleftrightarrow> (\<exists>zs. s = pre @ zs)"
  by (induction pre s rule: starts_with.induct) auto

lemma ends_with_iff: "ends_with suffix s \<longleftrightarrow> (\<exists>ys. s = ys @ suffix)"
proof -
  have "ends_with suffix s \<longleftrightarrow> (\<exists>zs. rev s = rev suffix @ zs)"
    by (simp add: ends_with_def starts_with_iff)
  also have "\<dots> \<longleftrightarrow> (\<exists>ys. s = ys @ suffix)"
  proof
    assume "\<exists>zs. rev s = rev suffix @ zs"
    then obtain zs where "rev s = rev suffix @ zs" by blast
    then have "rev (rev s) = rev (rev suffix @ zs)" by simp
    then have "s = rev zs @ suffix" by simp
    then show "\<exists>ys. s = ys @ suffix" by blast
  next
    assume "\<exists>ys. s = ys @ suffix"
    then obtain ys where "s = ys @ suffix" by blast
    then have "rev s = rev suffix @ rev ys" by simp
    then show "\<exists>zs. rev s = rev suffix @ zs" by blast
  qed
  finally show ?thesis .
qed



lemma ends_with_dropWhile: "ends_with suffix (dropWhile P s) \<Longrightarrow> ends_with suffix s"
proof -
  assume "ends_with suffix (dropWhile P s)"
  then obtain ys where "dropWhile P s = ys @ suffix" by (auto simp: ends_with_iff)
  then have "s = (takeWhile P s @ ys) @ suffix"
    by (metis append.assoc takeWhile_dropWhile_id)
  then show ?thesis using ends_with_iff by blast
qed


























end
